theory Spec2Isabelle
  imports Main "HOL-Library.Sublist"
begin

section \<open>The chatbot tutorial: message window and session store\<close>

text \<open>
  The tutorial notebook \<^verbatim>\<open>docs/docs/tutorials/chatbot.ipynb\<close> defines two functions of
  its own and one composed step:
  \<^item> \<^verbatim>\<open>filter_messages(messages, k=10)\<close>, the slice \<^verbatim>\<open>messages[-k:]\<close>;
  \<^item> \<^verbatim>\<open>get_session_history(session_id)\<close>, a lookup in the global dictionary
    \<^verbatim>\<open>store\<close> that creates the entry when it is missing;
  \<^item> the first step of \<^verbatim>\<open>chain\<close>,
    \<^verbatim>\<open>RunnablePassthrough.assign(messages=lambda x: filter_messages(x["messages"]))\<close>.
\<close>

subsection \<open>Errors\<close>

text \<open>The only exception the Python of these cells can raise is the \<^verbatim>\<open>KeyError\<close> of a
  dictionary subscript on a missing key.\<close>

datatype error = KeyError string

subsection \<open>Python slicing with an open upper bound\<close>

text \<open>
  \<^verbatim>\<open>xs[i:]\<close> on a sequence of length \<open>n\<close>: a negative lower bound has \<open>n\<close> added and is
  then raised to 0 if still negative; a non-negative one is lowered to \<open>n\<close> if it
  exceeds it. The slice holds the elements from that position to the end. A slice
  never raises on an integer bound.
\<close>

definition slice_start :: "int \<Rightarrow> nat \<Rightarrow> nat" where
  "slice_start i n =
     (if i < 0 then (if i + int n < 0 then 0 else nat (i + int n))
      else (if int n \<le> i then n else nat i))"

definition slice_from :: "'a list \<Rightarrow> int \<Rightarrow> 'a list" where
  "slice_from xs i = drop (slice_start i (length xs)) xs"

subsection \<open>filter_messages\<close>

text \<open>
  \<^verbatim>\<open>
  def filter_messages(messages, k=10):
      return messages[-k:]
  \<close>
  Python's integers are unbounded, so \<open>k\<close> is an \<open>int\<close> and \<open>- k\<close> cannot overflow.
\<close>

definition filter_messages :: "'m list \<Rightarrow> int \<Rightarrow> 'm list" where
  "filter_messages msgs k = slice_from msgs (- k)"

definition filter_messages_default_k :: int where
  "filter_messages_default_k = 10"

text \<open>
  The window as the specification words it: the trailing \<open>k\<close> elements of the sequence,
  or the whole sequence if it is shorter than \<open>k\<close>.
\<close>

definition trailing :: "nat \<Rightarrow> 'a list \<Rightarrow> 'a list" where
  "trailing k xs = (if k \<le> length xs then drop (length xs - k) xs else xs)"

subsection \<open>Objects and references\<close>

text \<open>
  Python dictionaries hold references. \<^verbatim>\<open>get_session_history\<close> returns the very object
  that the dictionary holds, and callers mutate it later (the history wrapper appends
  messages to it), so identity matters: the state has a heap of objects, and the
  dictionary maps session ids to addresses. An address is an index into the heap; an
  allocation appends, so the new address is one that no earlier object has.
\<close>

type_synonym addr = nat

datatype 'm pyobj = ChatMessageHistory "'m list" | OtherObject

type_synonym 'm heap = "'m pyobj list"

definition deref :: "'m heap \<Rightarrow> addr \<Rightarrow> 'm pyobj option" where
  "deref h a = (if a < length h then Some (h ! a) else None)"

definition is_history :: "'m heap \<Rightarrow> addr \<Rightarrow> bool" where
  "is_history h a =
     (case deref h a of Some (ChatMessageHistory ms) \<Rightarrow> True | _ \<Rightarrow> False)"

text \<open>
  Modelled from the spec: the class \<^verbatim>\<open>ChatMessageHistory\<close> is imported from
  \<^verbatim>\<open>langchain_community.chat_message_histories\<close> and its constructor is not part of
  the notebook. A conversation history is an ordered sequence of messages; the call
  \<^verbatim>\<open>ChatMessageHistory()\<close> with no arguments makes a new object whose sequence is
  empty, and does not fail.
\<close>

definition new_ChatMessageHistory :: "'m heap \<Rightarrow> addr \<times> 'm heap" where
  "new_ChatMessageHistory h = (length h, h @ [ChatMessageHistory []])"

subsection \<open>The session store and get_session_history\<close>

text \<open>
  \<^verbatim>\<open>
  store = {}

  def get_session_history(session_id: str) -> BaseChatMessageHistory:
      if session_id not in store:
          store[session_id] = ChatMessageHistory()
      return store[session_id]
  \<close>
  The global \<^verbatim>\<open>store\<close> and the heap are the state; the function returns its result
  together with the new state. The subscript of the \<^verbatim>\<open>return\<close> raises
  \<^verbatim>\<open>KeyError\<close> on a missing key, which is a branch of the model.
\<close>

record 'm state =
  store :: "string \<rightharpoonup> addr"
  heap :: "'m heap"

definition init_state :: "'m heap \<Rightarrow> 'm state" where
  "init_state h = \<lparr>store = Map.empty, heap = h\<rparr>"

definition get_session_history ::
  "string \<Rightarrow> 'm state \<Rightarrow> (error + addr) \<times> 'm state" where
  "get_session_history session_id s =
     (let s1 = (if store s session_id = None
                then (case new_ChatMessageHistory (heap s) of
                        (a, h) \<Rightarrow> s\<lparr>store := (store s)(session_id \<mapsto> a), heap := h\<rparr>)
                else s)
      in (case store s1 session_id of
            None \<Rightarrow> Inl (KeyError session_id)
          | Some a \<Rightarrow> Inr a,
          s1))"

text \<open>A finite sequence of calls, one after the other, each on the state the previous
  one left.\<close>

fun run_calls :: "string list \<Rightarrow> 'm state \<Rightarrow> 'm state" where
  "run_calls [] s = s"
| "run_calls (session_id # rest) s = run_calls rest (snd (get_session_history session_id s))"

text \<open>
  The store predicate: the keys are exactly the session ids in \<open>Q\<close>, and every value
  refers to a \<^verbatim>\<open>ChatMessageHistory\<close> object of the heap.
\<close>

definition store_inv :: "string set \<Rightarrow> 'm state \<Rightarrow> bool" where
  "store_inv Q s \<longleftrightarrow>
     dom (store s) = Q \<and> (\<forall>session_id a. store s session_id = Some a \<longrightarrow> is_history (heap s) a)"

subsection \<open>The truncation step of the chain\<close>

text \<open>
  \<^verbatim>\<open>
  chain = (
      RunnablePassthrough.assign(messages=lambda x: filter_messages(x["messages"]))
      | prompt
      | model
  )
  \<close>
  The chain's input is a dictionary; in the notebook its values are a list of messages
  (key \<^verbatim>\<open>"messages"\<close>) and a string (key \<^verbatim>\<open>"language"\<close>). Both kinds of value can
  be sliced in Python.
\<close>

datatype 'm pyval = PyList "'m list" | PyStr string

text \<open>The lambda: a subscript, which raises on a missing key, then \<open>filter_messages\<close>
  with the default \<open>k\<close>.\<close>

definition messages_lambda :: "(string \<rightharpoonup> 'm pyval) \<Rightarrow> error + 'm pyval" where
  "messages_lambda x =
     (case x ''messages'' of
        None \<Rightarrow> Inl (KeyError ''messages'')
      | Some (PyList ms) \<Rightarrow> Inr (PyList (filter_messages ms filter_messages_default_k))
      | Some (PyStr t) \<Rightarrow> Inr (PyStr (filter_messages t filter_messages_default_k)))"

text \<open>
  Modelled from the spec: \<^verbatim>\<open>RunnablePassthrough.assign\<close> is library code
  (\<^verbatim>\<open>langchain_core.runnables\<close>) that the notebook only calls. The notebook describes
  the step as one "that modifies the \<^verbatim>\<open>messages\<close> key appropriately": the step
  computes the function on the input dictionary and returns the input dictionary with
  the keyword bound to the function's result; an exception of the function is the
  step's.
\<close>

definition RunnablePassthrough_assign ::
  "string \<Rightarrow> ((string \<rightharpoonup> 'v) \<Rightarrow> error + 'v) \<Rightarrow> (string \<rightharpoonup> 'v) \<Rightarrow> error + (string \<rightharpoonup> 'v)" where
  "RunnablePassthrough_assign key f x =
     (case f x of Inl e \<Rightarrow> Inl e | Inr v \<Rightarrow> Inr (x(key \<mapsto> v)))"

definition chain_truncation_step ::
  "(string \<rightharpoonup> 'm pyval) \<Rightarrow> error + (string \<rightharpoonup> 'm pyval)" where
  "chain_truncation_step = RunnablePassthrough_assign ''messages'' messages_lambda"

section \<open>Properties of filter_messages\<close>

lemma slice_start_neg_pos:
  "0 < k \<Longrightarrow> slice_start (- k) n = n - nat k"
  by (auto simp: slice_start_def)

lemma filter_messages_positive:
  "0 < k \<Longrightarrow> filter_messages msgs k = trailing (nat k) msgs"
  by (auto simp: filter_messages_def slice_from_def trailing_def slice_start_neg_pos)

lemma filter_messages_negative:
  "k < 0 \<Longrightarrow> filter_messages msgs k = drop (nat (- k)) msgs"
  by (auto simp: filter_messages_def slice_from_def slice_start_def)

text \<open>
  C1: for a non-negative \<open>k\<close> the function should return the trailing \<open>k\<close> elements when
  the list has at least \<open>k\<close> elements. At \<open>k = 0\<close> and a list of two messages the code
  returns both messages, where the trailing zero elements are the empty list. (For
  every positive \<open>k\<close> the code agrees with the specification: lemma
  \<open>filter_messages_positive\<close>.)
\<close>

theorem filter_messages_zero_differs_from_trailing:
  "filter_messages [''hi'', ''hello''] 0 = [''hi'', ''hello'']
   \<and> trailing 0 [''hi'', ''hello''] = ([] :: string list)
   \<and> filter_messages [''hi'', ''hello''] 0 \<noteq> trailing 0 [''hi'', ''hello'']"
  by (simp add: filter_messages_def slice_from_def slice_start_def trailing_def)

text \<open>
  C6: at \<open>k = 0\<close> the slice is \<^verbatim>\<open>messages[-0:]\<close>, that is \<^verbatim>\<open>messages[0:]\<close>, so
  \<open>filter_messages\<close> returns the entire input list, not the empty list.
\<close>

theorem filter_messages_zero_whole_list:
  "filter_messages msgs 0 = msgs"
  by (simp add: filter_messages_def slice_from_def slice_start_def)

section \<open>Properties of get_session_history\<close>

subsection \<open>The two cases of a call, and what a call keeps\<close>

lemma get_session_history_absent:
  "store s session_id = None \<Longrightarrow>
   get_session_history session_id s =
     (Inr (length (heap s)),
      s\<lparr>store := (store s)(session_id \<mapsto> length (heap s)),
        heap := heap s @ [ChatMessageHistory []]\<rparr>)"
  by (simp add: get_session_history_def new_ChatMessageHistory_def)

lemma get_session_history_present:
  "store s session_id = Some a \<Longrightarrow> get_session_history session_id s = (Inr a, s)"
  by (simp add: get_session_history_def)

lemma get_session_history_store_other:
  "other \<noteq> session_id \<Longrightarrow> store (snd (get_session_history session_id s)) other = store s other"
  by (cases "store s session_id")
     (simp_all add: get_session_history_absent get_session_history_present)

lemma get_session_history_store_kept:
  "store s other = Some a \<Longrightarrow> store (snd (get_session_history session_id s)) other = Some a"
  by (cases "store s session_id"; cases "other = session_id")
     (simp_all add: get_session_history_absent get_session_history_present)

lemma get_session_history_heap_prefix:
  "prefix (heap s) (heap (snd (get_session_history session_id s)))"
  by (cases "store s session_id")
     (simp_all add: get_session_history_absent get_session_history_present)

lemma deref_prefix:
  "prefix h h' \<Longrightarrow> a < length h \<Longrightarrow> deref h' a = deref h a"
  by (auto simp: deref_def prefix_def nth_append)

lemma run_calls_store_kept:
  "store s other = Some a \<Longrightarrow> store (run_calls ids s) other = Some a"
  by (induction ids arbitrary: s) (simp_all add: get_session_history_store_kept)

lemma run_calls_heap_prefix:
  "prefix (heap s) (heap (run_calls ids s))"
proof (induction ids arbitrary: s)
  case Nil
  show ?case by simp
next
  case (Cons i ids)
  have "prefix (heap s) (heap (snd (get_session_history i s)))"
    by (rule get_session_history_heap_prefix)
  also have "prefix \<dots> (heap (run_calls ids (snd (get_session_history i s))))"
    by (rule Cons.IH)
  finally show ?case by simp
qed

lemma is_history_prefix:
  "prefix h h' \<Longrightarrow> is_history h a \<Longrightarrow> is_history h' a"
  by (auto simp: is_history_def deref_def prefix_def nth_append split: if_splits)

lemma store_inv_step:
  assumes "store_inv Q s"
  shows "store_inv (insert session_id Q) (snd (get_session_history session_id s))"
proof (cases "store s session_id")
  case None
  have new: "is_history (heap s @ [ChatMessageHistory []]) (length (heap s))"
    by (simp add: is_history_def deref_def)
  have old: "is_history (heap s @ [ChatMessageHistory []]) a" if "is_history (heap s) a" for a
    using that by (rule is_history_prefix [rotated]) simp
  from assms None new old show ?thesis
    by (auto simp: store_inv_def get_session_history_absent)
next
  case (Some a)
  with assms show ?thesis
    by (auto simp: store_inv_def get_session_history_present)
qed

lemma store_inv_run_calls:
  "store_inv Q s \<Longrightarrow> store_inv (Q \<union> set ids) (run_calls ids s)"
proof (induction ids arbitrary: Q s)
  case Nil
  then show ?case by simp
next
  case (Cons i ids)
  from Cons.prems have "store_inv (insert i Q) (snd (get_session_history i s))"
    by (rule store_inv_step)
  from Cons.IH [OF this] show ?case by simp
qed

lemma store_inv_init: "store_inv {} (init_state h)"
  by (simp add: store_inv_def init_state_def)

subsection \<open>The claims about the session store\<close>

text \<open>
  C2: \<open>get_session_history\<close> is get-or-insert-default, for every session id and every
  state. If the id is not a key of the store, the call returns a new object (its address
  refers to nothing before the call) that is an empty \<^verbatim>\<open>ChatMessageHistory\<close>, the store
  afterwards is the old store with the id bound to that object, and every object that
  existed before is as it was. If the id is a key, the call returns the object the store
  holds for it and the state (store and heap) is the same as before.
\<close>

theorem get_session_history_get_or_insert:
  "(store s session_id = None \<longrightarrow>
      (\<exists>a s'. get_session_history session_id s = (Inr a, s')
         \<and> deref (heap s) a = None
         \<and> deref (heap s') a = Some (ChatMessageHistory [])
         \<and> store s' = (store s)(session_id \<mapsto> a)
         \<and> (\<forall>b. b < length (heap s) \<longrightarrow> deref (heap s') b = deref (heap s) b)))
   \<and> (\<forall>a. store s session_id = Some a \<longrightarrow> get_session_history session_id s = (Inr a, s))"
  by (auto simp: get_session_history_absent get_session_history_present deref_def nth_append)

theorem get_session_history_get_or_insert_witness:
  "store (init_state ([] :: string heap)) ''abc2'' = None
   \<and> (\<exists>a s'. get_session_history ''abc2'' (init_state ([] :: string heap)) = (Inr a, s')
         \<and> deref (heap (init_state ([] :: string heap))) a = None
         \<and> deref (heap s') a = Some (ChatMessageHistory [])
         \<and> store s' ''abc2'' = Some a)
   \<and> store \<lparr>store = [''abc2'' \<mapsto> 0], heap = [ChatMessageHistory [''hi'']]\<rparr> ''abc2'' = Some 0
   \<and> get_session_history ''abc2'' \<lparr>store = [''abc2'' \<mapsto> 0], heap = [ChatMessageHistory [''hi'']]\<rparr>
       = (Inr 0, \<lparr>store = [''abc2'' \<mapsto> 0], heap = [ChatMessageHistory [''hi'']]\<rparr>)"
proof -
  let ?S0 = "init_state ([] :: string heap)"
  let ?S1 = "\<lparr>store = [''abc2'' \<mapsto> 0], heap = [ChatMessageHistory [''hi'']]\<rparr> :: string state"
  have h0: "store ?S0 ''abc2'' = None"
    by (simp add: init_state_def)
  have h1: "store ?S1 ''abc2'' = Some 0"
    by simp
  from get_session_history_get_or_insert [of ?S0 "''abc2''"] h0
  obtain a s' where "get_session_history ''abc2'' ?S0 = (Inr a, s')"
      "deref (heap ?S0) a = None" "deref (heap s') a = Some (ChatMessageHistory [])"
      "store s' = (store ?S0)(''abc2'' \<mapsto> a)"
    by blast
  then have "\<exists>a s'. get_session_history ''abc2'' ?S0 = (Inr a, s')
         \<and> deref (heap ?S0) a = None
         \<and> deref (heap s') a = Some (ChatMessageHistory [])
         \<and> store s' ''abc2'' = Some a"
    by simp
  moreover from get_session_history_get_or_insert [of ?S1 "''abc2''"] h1
  have "get_session_history ''abc2'' ?S1 = (Inr 0, ?S1)"
    by blast
  ultimately show ?thesis
    using h0 h1 by simp
qed

text \<open>
  C3: neither utility raises. For every session id and every state
  \<open>get_session_history\<close> returns a value, never the \<^verbatim>\<open>KeyError\<close> of its final
  subscript, and the value is the entry the store then holds for the id. For every list
  and every integer \<open>k\<close> (also a negative one) \<open>filter_messages\<close> returns a list, a
  suffix of its input; a slice has no failing case, so the function is total.
\<close>

theorem utilities_never_raise:
  "(\<exists>a. fst (get_session_history session_id s) = Inr a
        \<and> store (snd (get_session_history session_id s)) session_id = Some a)
   \<and> suffix (filter_messages msgs k) msgs"
proof -
  have "\<exists>a. fst (get_session_history session_id s) = Inr a
        \<and> store (snd (get_session_history session_id s)) session_id = Some a"
    by (cases "store s session_id")
       (simp_all add: get_session_history_absent get_session_history_present)
  moreover have "suffix (filter_messages msgs k) msgs"
    by (simp add: filter_messages_def slice_from_def suffix_drop)
  ultimately show ?thesis by simp
qed

theorem utilities_never_raise_witness:
  "fst (get_session_history ''abc3'' \<lparr>store = [''abc2'' \<mapsto> 0], heap = [ChatMessageHistory [''hi'']]\<rparr>) = Inr 1
   \<and> suffix (filter_messages [''a'', ''b'', ''c''] (- 1)) [''a'', ''b'', ''c'']"
proof -
  let ?S1 = "\<lparr>store = [''abc2'' \<mapsto> 0], heap = [ChatMessageHistory [''hi'']]\<rparr> :: string state"
  from utilities_never_raise [of "''abc3''" ?S1 "[''a'', ''b'', ''c'']" "- 1"]
  obtain a where a: "fst (get_session_history ''abc3'' ?S1) = Inr a"
    and suf: "suffix (filter_messages [''a'', ''b'', ''c''] (- 1)) [''a'', ''b'', ''c'']"
    by blast
  have "fst (get_session_history ''abc3'' ?S1) = Inr 1"
    by (simp add: get_session_history_def new_ChatMessageHistory_def)
  with suf show ?thesis by simp
qed

text \<open>
  C4: sessions are independent. A call for \<open>s1\<close> leaves the store's entry for every other
  id \<open>s2\<close> as it was (absent stays absent, present stays bound to the same object), and
  leaves every object that existed before the call unchanged.
\<close>

theorem get_session_history_other_sessions_unchanged:
  "s1 \<noteq> s2 \<Longrightarrow>
   store (snd (get_session_history s1 st)) s2 = store st s2
   \<and> (\<forall>a. a < length (heap st) \<longrightarrow> deref (heap (snd (get_session_history s1 st))) a = deref (heap st) a)"
  by (simp add: get_session_history_store_other deref_prefix [OF get_session_history_heap_prefix])

theorem get_session_history_other_sessions_unchanged_witness:
  "''abc3'' \<noteq> ''abc2''
   \<and> store (snd (get_session_history ''abc3''
        \<lparr>store = [''abc2'' \<mapsto> 0], heap = [ChatMessageHistory [''hi'']]\<rparr>)) ''abc2'' = Some 0
   \<and> deref (heap (snd (get_session_history ''abc3''
        \<lparr>store = [''abc2'' \<mapsto> 0], heap = [ChatMessageHistory [''hi'']]\<rparr>))) 0
       = Some (ChatMessageHistory [''hi''])"
proof -
  let ?S1 = "\<lparr>store = [''abc2'' \<mapsto> 0], heap = [ChatMessageHistory [''hi'']]\<rparr> :: string state"
  have ne: "''abc3'' \<noteq> ''abc2''" by simp
  have len: "0 < length (heap ?S1)" by simp
  from get_session_history_other_sessions_unchanged [OF ne, of ?S1] len
  have "store (snd (get_session_history ''abc3'' ?S1)) ''abc2'' = store ?S1 ''abc2''"
    and "deref (heap (snd (get_session_history ''abc3'' ?S1))) 0 = deref (heap ?S1) 0"
    by blast+
  then show ?thesis
    using ne by (simp add: deref_def)
qed

text \<open>
  C5: starting from the empty store, after any finite sequence of calls the keys of the
  store are exactly the session ids queried so far and every value of the store refers
  to a \<^verbatim>\<open>ChatMessageHistory\<close> object; and every single call preserves this predicate,
  the queried id being added to the set.
\<close>

theorem store_invariant:
  "store_inv (set ids) (run_calls ids (init_state h))
   \<and> (store_inv Q s \<longrightarrow> store_inv (insert session_id Q) (snd (get_session_history session_id s)))"
  using store_inv_run_calls [OF store_inv_init, of ids h] store_inv_step [of Q s session_id]
  by simp

theorem store_invariant_witness:
  "dom (store (run_calls [''abc2'', ''abc3'', ''abc2''] (init_state ([] :: string heap))))
     = {''abc2'', ''abc3''}
   \<and> store_inv {''abc2''} \<lparr>store = [''abc2'' \<mapsto> 0], heap = [ChatMessageHistory [''hi'']]\<rparr>
   \<and> store_inv (insert ''abc3'' {''abc2''}) (snd (get_session_history ''abc3''
        \<lparr>store = [''abc2'' \<mapsto> 0], heap = [ChatMessageHistory [''hi'']]\<rparr>))"
proof -
  let ?S1 = "\<lparr>store = [''abc2'' \<mapsto> 0], heap = [ChatMessageHistory [''hi'']]\<rparr> :: string state"
  have pre: "store_inv {''abc2''} ?S1"
    by (simp add: store_inv_def is_history_def deref_def)
  from store_invariant [of "[''abc2'', ''abc3'', ''abc2'']" "[] :: string heap" "{''abc2''}" ?S1 "''abc3''"]
  have run: "store_inv (set [''abc2'', ''abc3'', ''abc2'']) (run_calls [''abc2'', ''abc3'', ''abc2''] (init_state ([] :: string heap)))"
    and step: "store_inv {''abc2''} ?S1 \<longrightarrow> store_inv (insert ''abc3'' {''abc2''}) (snd (get_session_history ''abc3'' ?S1))"
    by blast+
  from run have "dom (store (run_calls [''abc2'', ''abc3'', ''abc2''] (init_state ([] :: string heap))))
     = {''abc2'', ''abc3''}"
    unfolding store_inv_def by auto
  with pre step show ?thesis by blast
qed

text \<open>
  C7: \<open>get_session_history\<close> is idempotent and history-stable. A call returns an object,
  and that object is the entry the store holds for the id after the call; a second call
  with the same id, right after the first, returns exactly that entry and changes
  nothing. Once an id is bound in the store, no later sequence of calls, with any ids,
  binds it to another object, and the object it refers to is not changed by those calls.
\<close>

theorem get_session_history_idempotent_stable:
  "(\<exists>a s'. get_session_history session_id s = (Inr a, s')
        \<and> store s' session_id = Some a
        \<and> get_session_history session_id s' = (Inr a, s'))
   \<and> (store s other = Some b \<longrightarrow> store (run_calls ids s) other = Some b)
   \<and> (store s other = Some b \<and> b < length (heap s) \<longrightarrow>
        deref (heap (run_calls ids s)) b = deref (heap s) b)"
proof -
  have "\<exists>a s'. get_session_history session_id s = (Inr a, s')
        \<and> store s' session_id = Some a
        \<and> get_session_history session_id s' = (Inr a, s')"
  proof (cases "store s session_id")
    case None
    let ?a = "length (heap s)"
    let ?s' = "s\<lparr>store := (store s)(session_id \<mapsto> ?a),
                 heap := heap s @ [ChatMessageHistory []]\<rparr>"
    have first: "get_session_history session_id s = (Inr ?a, ?s')"
      using None by (rule get_session_history_absent)
    have bound: "store ?s' session_id = Some ?a"
      by simp
    from bound have "get_session_history session_id ?s' = (Inr ?a, ?s')"
      by (rule get_session_history_present)
    with first bound show ?thesis
      by blast
  next
    case (Some a)
    then have "get_session_history session_id s = (Inr a, s)"
      by (rule get_session_history_present)
    with Some show ?thesis
      by blast
  qed
  then show ?thesis
    by (simp add: run_calls_store_kept deref_prefix [OF run_calls_heap_prefix])
qed

theorem get_session_history_idempotent_stable_witness:
  "fst (get_session_history ''abc2'' (init_state ([] :: string heap))) = Inr 0
   \<and> store (snd (get_session_history ''abc2'' (init_state ([] :: string heap)))) ''abc2'' = Some 0
   \<and> get_session_history ''abc2'' (snd (get_session_history ''abc2'' (init_state ([] :: string heap))))
       = (Inr 0, snd (get_session_history ''abc2'' (init_state ([] :: string heap))))
   \<and> store (run_calls [''abc3'', ''abc2'', ''abc5'']
        \<lparr>store = [''abc2'' \<mapsto> 0], heap = [ChatMessageHistory [''hi'']]\<rparr>) ''abc2'' = Some 0
   \<and> deref (heap (run_calls [''abc3'', ''abc2'', ''abc5'']
        \<lparr>store = [''abc2'' \<mapsto> 0], heap = [ChatMessageHistory [''hi'']]\<rparr>)) 0
       = Some (ChatMessageHistory [''hi''])"
proof -
  let ?S0 = "init_state ([] :: string heap)"
  let ?S1 = "\<lparr>store = [''abc2'' \<mapsto> 0], heap = [ChatMessageHistory [''hi'']]\<rparr> :: string state"
  let ?ids = "[''abc3'', ''abc2'', ''abc5'']"
  have h: "store ?S1 ''abc2'' = Some 0" "0 < length (heap ?S1)"
    by simp_all
  have first: "fst (get_session_history ''abc2'' ?S0) = Inr 0"
    by (simp add: get_session_history_def new_ChatMessageHistory_def init_state_def)
  from get_session_history_idempotent_stable [of "''abc2''" ?S0 "''abc2''" 0 ?ids]
  obtain a s' where call: "get_session_history ''abc2'' ?S0 = (Inr a, s')"
    and bound: "store s' ''abc2'' = Some a"
    and again: "get_session_history ''abc2'' s' = (Inr a, s')"
    by blast
  from call first have a: "a = 0"
    by simp
  from call have s': "s' = snd (get_session_history ''abc2'' ?S0)"
    by simp
  from get_session_history_idempotent_stable [of "''abc2''" ?S1 "''abc2''" 0 ?ids] h
  have "store (run_calls ?ids ?S1) ''abc2'' = Some 0"
    and "deref (heap (run_calls ?ids ?S1)) 0 = deref (heap ?S1) 0"
    by blast+
  with first bound again show ?thesis
    unfolding a s' by (simp add: deref_def)
qed

section \<open>Properties of the truncation step\<close>

text \<open>
  C8: the truncation step of the chain changes only the key \<^verbatim>\<open>"messages"\<close>. For every
  input dictionary that binds \<^verbatim>\<open>"messages"\<close> to a list, the step succeeds, binds
  \<^verbatim>\<open>"messages"\<close> to \<open>filter_messages\<close> of that list (with the default \<open>k = 10\<close>), and
  leaves every other key as in the input: bound to its original value, or absent.
\<close>

theorem truncation_step_changes_only_messages:
  "x ''messages'' = Some (PyList ms) \<Longrightarrow>
   \<exists>y. chain_truncation_step x = Inr y
      \<and> y ''messages'' = Some (PyList (filter_messages ms 10))
      \<and> (\<forall>key. key \<noteq> ''messages'' \<longrightarrow> y key = x key)"
  by (simp add: chain_truncation_step_def RunnablePassthrough_assign_def messages_lambda_def
      filter_messages_default_k_def)

theorem truncation_step_changes_only_messages_witness:
  "[''messages'' \<mapsto> PyList [''m1'', ''m2''], ''language'' \<mapsto> PyStr ''English''] ''messages''
     = Some (PyList [''m1'', ''m2''])
   \<and> (\<exists>y. chain_truncation_step
            [''messages'' \<mapsto> PyList [''m1'', ''m2''], ''language'' \<mapsto> PyStr ''English''] = Inr y
        \<and> y ''messages'' = Some (PyList [''m1'', ''m2''])
        \<and> y ''language'' = Some (PyStr ''English''))"
proof -
  let ?x = "[''messages'' \<mapsto> PyList [''m1'', ''m2''], ''language'' \<mapsto> PyStr ''English'']"
  have h: "?x ''messages'' = Some (PyList [''m1'', ''m2''])"
    by simp
  have ne: "''language'' \<noteq> ''messages''"
    by simp
  have win: "filter_messages [''m1'', ''m2''] 10 = [''m1'', ''m2'']"
    by (simp add: filter_messages_def slice_from_def slice_start_def)
  from truncation_step_changes_only_messages [of ?x "[''m1'', ''m2'']"] h
  obtain y where "chain_truncation_step ?x = Inr y"
    "y ''messages'' = Some (PyList (filter_messages [''m1'', ''m2''] 10))"
    "\<forall>key. key \<noteq> ''messages'' \<longrightarrow> y key = ?x key"
    by blast
  with ne win have "chain_truncation_step ?x = Inr y
      \<and> y ''messages'' = Some (PyList [''m1'', ''m2''])
      \<and> y ''language'' = Some (PyStr ''English'')"
    by simp
  then show ?thesis
    using h by blast
qed

end
